theory Spec2Isabelle
  imports Complex_Main
begin

section \<open>Floating-point values\<close>

text \<open>
  The pipelines compute on numpy \<open>float32\<close> arrays. A value is modelled as a finite
  real number or one of the IEEE special values; the special values arise from division
  by zero and propagate as in IEEE arithmetic. Rounding, overflow and the sign of zero
  are not modelled: arithmetic on finite values is exact.
\<close>

datatype fval = Fin real | PInf | NInf | NaN

fun is_finite :: "fval \<Rightarrow> bool" where
  "is_finite (Fin x) = True"
| "is_finite PInf = False"
| "is_finite NInf = False"
| "is_finite NaN = False"

definition signed_inf :: "real \<Rightarrow> fval" where
  "signed_inf s = (if s = 0 then NaN else if 0 < s then PInf else NInf)"

fun fneg :: "fval \<Rightarrow> fval" where
  "fneg (Fin x) = Fin (- x)"
| "fneg PInf = NInf"
| "fneg NInf = PInf"
| "fneg NaN = NaN"

fun fadd :: "fval \<Rightarrow> fval \<Rightarrow> fval" where
  "fadd (Fin x) (Fin y) = Fin (x + y)"
| "fadd NaN b = NaN"
| "fadd a NaN = NaN"
| "fadd PInf NInf = NaN"
| "fadd NInf PInf = NaN"
| "fadd PInf b = PInf"
| "fadd a PInf = PInf"
| "fadd NInf b = NInf"
| "fadd a NInf = NInf"

definition fsub :: "fval \<Rightarrow> fval \<Rightarrow> fval" where
  "fsub a b = fadd a (fneg b)"

fun fmul :: "fval \<Rightarrow> fval \<Rightarrow> fval" where
  "fmul (Fin x) (Fin y) = Fin (x * y)"
| "fmul NaN b = NaN"
| "fmul a NaN = NaN"
| "fmul (Fin x) PInf = signed_inf x"
| "fmul (Fin x) NInf = signed_inf (- x)"
| "fmul PInf (Fin y) = signed_inf y"
| "fmul NInf (Fin y) = signed_inf (- y)"
| "fmul PInf PInf = PInf"
| "fmul PInf NInf = NInf"
| "fmul NInf PInf = NInf"
| "fmul NInf NInf = PInf"

text \<open>
  Division of a finite value by zero gives NaN for \<open>0/0\<close> and an infinity with the sign
  of the numerator otherwise (the divisors that are zero here are standard deviations
  and square roots, hence \<open>+0\<close>).
\<close>

fun fdiv :: "fval \<Rightarrow> fval \<Rightarrow> fval" where
  "fdiv (Fin x) (Fin y) = (if y = 0 then signed_inf x else Fin (x / y))"
| "fdiv NaN b = NaN"
| "fdiv a NaN = NaN"
| "fdiv (Fin x) PInf = Fin 0"
| "fdiv (Fin x) NInf = Fin 0"
| "fdiv PInf (Fin y) = (if 0 \<le> y then PInf else NInf)"
| "fdiv NInf (Fin y) = (if 0 \<le> y then NInf else PInf)"
| "fdiv PInf b = NaN"
| "fdiv NInf b = NaN"

fun fsqrt :: "fval \<Rightarrow> fval" where
  "fsqrt (Fin x) = (if x < 0 then NaN else Fin (sqrt x))"
| "fsqrt PInf = PInf"
| "fsqrt NInf = NaN"
| "fsqrt NaN = NaN"

definition fsq :: "fval \<Rightarrow> fval" where
  "fsq a = fmul a a"

section \<open>Two-dimensional arrays\<close>

text \<open>
  A 2-D numpy array is its shape together with its elements; \<open>cell a i j\<close> is
  \<open>a[i, j]\<close> and is meaningful for \<open>i < rows a\<close> and \<open>j < cols a\<close> only.
\<close>

record 'a ndarray =
  rows :: nat
  cols :: nat
  cell :: "nat \<Rightarrow> nat \<Rightarrow> 'a"

datatype py_error =
    ValueError string
  | MinEmptyError
  | BroadcastError
  | InhomogeneousError
  | ExternalError string

text \<open>
  \<open>ValueError\<close> carries the message of a \<open>raise ValueError(...)\<close> of the repository;
  \<open>MinEmptyError\<close> is the \<open>ValueError\<close> that Python's \<open>min()\<close> raises on an empty
  sequence; \<open>BroadcastError\<close> and \<open>InhomogeneousError\<close> are the \<open>ValueError\<close>s numpy
  raises on incompatible shapes; \<open>ExternalError\<close> is any exception raised by an external
  collaborator (RAW decoder, file system).
\<close>

fun err_str :: "py_error \<Rightarrow> string" where
  "err_str (ValueError m) = m"
| "err_str MinEmptyError = ''min() arg is an empty sequence''"
| "err_str BroadcastError = ''operands could not be broadcast together''"
| "err_str InhomogeneousError = ''inhomogeneous shape''"
| "err_str (ExternalError m) = m"

definition flat :: "'a ndarray \<Rightarrow> 'a list" where
  "flat a = concat (map (\<lambda>i. map (cell a i) [0..<cols a]) [0..<rows a])"

definition map_arr :: "('a \<Rightarrow> 'b) \<Rightarrow> 'a ndarray \<Rightarrow> 'b ndarray" where
  "map_arr f a = \<lparr>rows = rows a, cols = cols a, cell = (\<lambda>i j. f (cell a i j))\<rparr>"

text \<open>Top-left slicing \<open>a[:h, :w]\<close>.\<close>

definition crop :: "'a ndarray \<Rightarrow> nat \<Rightarrow> nat \<Rightarrow> 'a ndarray" where
  "crop a h w = \<lparr>rows = min (rows a) h, cols = min (cols a) w, cell = cell a\<rparr>"

text \<open>
  numpy broadcasting of two 2-D operands: along each axis the lengths must be equal or
  one of them must be 1, otherwise the operation raises.
\<close>

definition bdim :: "nat \<Rightarrow> nat \<Rightarrow> nat option" where
  "bdim m n = (if m = n then Some m else if m = 1 then Some n else if n = 1 then Some m else None)"

definition bidx :: "nat \<Rightarrow> nat \<Rightarrow> nat" where
  "bidx n i = (if n = 1 then 0 else i)"

definition np_binop ::
  "('a \<Rightarrow> 'a \<Rightarrow> 'a) \<Rightarrow> 'a ndarray \<Rightarrow> 'a ndarray \<Rightarrow> py_error + 'a ndarray" where
  "np_binop f a b =
     (case bdim (rows a) (rows b) of
        None \<Rightarrow> Inl BroadcastError
      | Some h \<Rightarrow>
         (case bdim (cols a) (cols b) of
            None \<Rightarrow> Inl BroadcastError
          | Some w \<Rightarrow>
              Inr \<lparr>rows = h, cols = w,
                   cell = (\<lambda>i j. f (cell a (bidx (rows a) i) (bidx (cols a) j))
                                   (cell b (bidx (rows b) i) (bidx (cols b) j)))\<rparr>))"

text \<open>\<open>np.sum\<close>, \<open>np.mean\<close> and \<open>np.std\<close> over all elements of an array.\<close>

definition sum_list_f :: "fval list \<Rightarrow> fval" where
  "sum_list_f xs = foldl fadd (Fin 0) xs"

definition mean_list_f :: "fval list \<Rightarrow> fval" where
  "mean_list_f xs = fdiv (sum_list_f xs) (Fin (real (length xs)))"

definition std_list_f :: "fval list \<Rightarrow> fval" where
  "std_list_f xs =
     fsqrt (mean_list_f (map (\<lambda>x. fsq (fsub x (mean_list_f xs))) xs))"

definition np_sum :: "fval ndarray \<Rightarrow> fval" where
  "np_sum a = sum_list_f (flat a)"

definition np_std :: "fval ndarray \<Rightarrow> fval" where
  "np_std a = std_list_f (flat a)"

section \<open>Environment\<close>

text \<open>
  The external collaborators are parameters of the model:
  \<^item> \<open>listdir d\<close>: the names of the entries of directory \<open>d\<close> (used by \<open>glob.glob\<close>);
  \<^item> \<open>glob_dirs p\<close>: the existing paths that match the wildcard pattern \<open>p\<close> (the call
    \<open>glob.glob\<close> makes on the directory part of a pattern when that part has wildcards);
  \<^item> \<open>read_sha256 f\<close>: \<open>hashlib.sha256(open(f, "rb").read()).hexdigest()\<close>, which raises
    when the file cannot be opened or read (\<open>Inl\<close> the message of the exception);
  \<^item> \<open>imread_gray f\<close>: \<open>rawpy.imread\<close>, \<open>postprocess\<close>, \<open>cv2.cvtColor\<close> and the
    conversion to \<open>float32\<close>: the luminance raster of file \<open>f\<close>, or the message of the
    exception raised;
  \<^item> \<open>gaussian_blur g\<close>: the elements of \<open>cv2.GaussianBlur(g, (5, 5), 0)\<close>; OpenCV returns
    an array of the size of its input.
\<close>

record env =
  listdir :: "string \<Rightarrow> string list"
  glob_dirs :: "string \<Rightarrow> string list"
  read_sha256 :: "string \<Rightarrow> string + string"
  imread_gray :: "string \<Rightarrow> string + real ndarray"
  gaussian_blur :: "real ndarray \<Rightarrow> nat \<Rightarrow> nat \<Rightarrow> real"

section \<open>Residual extraction\<close>

definition GaussianBlur :: "env \<Rightarrow> real ndarray \<Rightarrow> real ndarray" where
  "GaussianBlur E gray = \<lparr>rows = rows gray, cols = cols gray, cell = gaussian_blur E gray\<rparr>"

text \<open>\<open>gray - denoised\<close>, the residual before normalisation.\<close>

definition raw_residual :: "env \<Rightarrow> real ndarray \<Rightarrow> py_error + fval ndarray" where
  "raw_residual E gray =
     (let denoised = GaussianBlur E gray
      in np_binop fsub (map_arr Fin gray) (map_arr Fin denoised))"

text \<open>
  \<open>extract_residual\<close> of \<open>full_prnu_pipeline.py\<close> and of the strict pipeline (the two
  functions have the same body). \<open>residual /= np.std(residual)\<close> is a numpy division: it
  raises nothing when the divisor is zero.
\<close>

definition extract_residual :: "env \<Rightarrow> string \<Rightarrow> py_error + fval ndarray" where
  "extract_residual E img_path =
     (case imread_gray E img_path of
        Inl m \<Rightarrow> Inl (ExternalError m)
      | Inr gray \<Rightarrow>
         (case raw_residual E gray of
            Inl e \<Rightarrow> Inl e
          | Inr residual \<Rightarrow> Inr (map_arr (\<lambda>x. fdiv x (np_std residual)) residual)))"

text \<open>\<open>extract_noise_residual\<close> of \<open>prnu_compare.py\<close>.\<close>

definition extract_noise_residual :: "env \<Rightarrow> string \<Rightarrow> py_error + fval ndarray" where
  "extract_noise_residual E cr2_path =
     (case imread_gray E cr2_path of
        Inl m \<Rightarrow> Inl (ExternalError m)
      | Inr gray \<Rightarrow>
         (case raw_residual E gray of
            Inl e \<Rightarrow> Inl e
          | Inr residual \<Rightarrow> Inr (map_arr (\<lambda>x. fdiv x (np_std residual)) residual)))"

section \<open>Paths and directory scanning\<close>

text \<open>
  Strings are byte strings; \<open>lower\<close> is Python's \<open>str.lower\<close> on the ASCII letters
  (no other character is mapped to one of the characters of \<open>.cr2\<close>).
\<close>

definition is_ascii_upper :: "char \<Rightarrow> bool" where
  "is_ascii_upper c = (65 \<le> (of_char c :: nat) \<and> (of_char c :: nat) \<le> 90)"

text \<open>An upper-case ASCII letter becomes lower-case by setting the bit of value 32.\<close>

definition lower_char :: "char \<Rightarrow> char" where
  "lower_char c =
     (if is_ascii_upper c
      then (case c of Char b0 b1 b2 b3 b4 b5 b6 b7 \<Rightarrow> Char b0 b1 b2 b3 b4 True b6 b7)
      else c)"

definition lower :: "string \<Rightarrow> string" where
  "lower s = map lower_char s"

definition endswith :: "string \<Rightarrow> string \<Rightarrow> bool" where
  "endswith s suf = (length suf \<le> length s \<and> drop (length s - length suf) s = suf)"

text \<open>\<open>os.path.basename\<close> and \<open>os.path.join\<close> (POSIX).\<close>

definition basename :: "string \<Rightarrow> string" where
  "basename p = rev (takeWhile (\<lambda>c. c \<noteq> CHR ''/'') (rev p))"

definition os_path_join :: "string \<Rightarrow> string \<Rightarrow> string" where
  "os_path_join a b = (if a = [] \<or> last a = CHR ''/'' then a @ b else a @ ''/'' @ b)"

text \<open>
  \<open>glob.glob(os.path.join(ref_folder, "*.CR2"))\<close> on a POSIX system. The directory part
  of the pattern is the folder without its trailing slashes (a folder made of slashes
  only is kept). When it contains one of the wildcard characters \<open>*\<close>, \<open>?\<close>, \<open>[\<close> it is a
  pattern itself and stands for the paths that match it, otherwise for itself. Of each
  such directory the entries whose name does not start with a dot and matches \<open>*.CR2\<close>,
  that is, ends in \<open>.CR2\<close> (the match is case-sensitive), are returned joined to the
  directory; a directory that cannot be listed has no entries.
\<close>

definition rstrip_slash :: "string \<Rightarrow> string" where
  "rstrip_slash s = rev (dropWhile (\<lambda>c. c = CHR ''/'') (rev s))"

definition glob_dirname :: "string \<Rightarrow> string" where
  "glob_dirname ref_folder =
     (if rstrip_slash ref_folder = [] then ref_folder else rstrip_slash ref_folder)"

definition ishidden :: "string \<Rightarrow> bool" where
  "ishidden name = (case name of [] \<Rightarrow> False | c # cs \<Rightarrow> c = CHR ''.'')"

definition has_magic :: "string \<Rightarrow> bool" where
  "has_magic s = list_ex (\<lambda>c. c = CHR ''*'' \<or> c = CHR ''?'' \<or> c = CHR ''['') s"

definition glob1_cr2 :: "env \<Rightarrow> string \<Rightarrow> string list" where
  "glob1_cr2 E dirname =
     map (os_path_join dirname)
       (filter (\<lambda>name. \<not> ishidden name \<and> endswith name ''.CR2'')
          (listdir E (if dirname = [] then ''.'' else dirname)))"

definition glob_cr2 :: "env \<Rightarrow> string \<Rightarrow> string list" where
  "glob_cr2 E ref_folder =
     (let d = glob_dirname ref_folder;
          dirs = (if has_magic d then glob_dirs E d else [d])
      in concat (map (glob1_cr2 E) dirs))"

section \<open>Observable events\<close>

text \<open>
  What a run does besides returning: the lines it prints, the calls of the RAW decoder
  (\<open>Imread f\<close> is emitted when \<open>extract_residual(f)\<close> is entered, the first pixel work
  on \<open>f\<close>), the figure it saves, and the score line (whose 4-decimal formatting is not
  modelled). A function returns the events it produced, also when it raises.
\<close>

datatype event = Print string | Imread string | Savefig string | PrintScore fval

fun is_Imread :: "event \<Rightarrow> bool" where
  "is_Imread (Imread f) = True"
| "is_Imread (Print l) = False"
| "is_Imread (Savefig n) = False"
| "is_Imread (PrintScore c) = False"

section \<open>Reference validation (strict pipeline)\<close>

definition size_error :: py_error where
  "size_error = ValueError ''Insufficient reference files. Need at least 15 CR2 images.''"

definition extension_error :: "string \<Rightarrow> py_error" where
  "extension_error f = ValueError (''Invalid file extension (not CR2): '' @ f)"

definition hash_line :: "string \<Rightarrow> string \<Rightarrow> string" where
  "hash_line f h = ''  '' @ basename f @ '' -> SHA256: '' @ h"

text \<open>Rule 2: the first file whose name fails the test raises.\<close>

fun check_extensions :: "string list \<Rightarrow> py_error + unit" where
  "check_extensions [] = Inr ()"
| "check_extensions (f # fs) =
     (if \<not> endswith (lower f) ''.cr2'' then Inl (extension_error f)
      else check_extensions fs)"

text \<open>Rule 3: one hash line per file, in order; reading a file may raise.\<close>

fun log_hashes :: "env \<Rightarrow> string list \<Rightarrow> event list \<times> (py_error + unit)" where
  "log_hashes E [] = ([], Inr ())"
| "log_hashes E (f # fs) =
     (case read_sha256 E f of
        Inl m \<Rightarrow> ([], Inl (ExternalError m))
      | Inr h \<Rightarrow>
         (case log_hashes E fs of (t, r) \<Rightarrow> (Print (hash_line f h) # t, r)))"

definition validate_references :: "env \<Rightarrow> string list \<Rightarrow> event list \<times> (py_error + bool)" where
  "validate_references E ref_files =
     (if length ref_files < 15 then ([], Inl size_error)
      else
        (case check_extensions ref_files of
           Inl e \<Rightarrow> ([], Inl e)
         | Inr u \<Rightarrow>
            (case log_hashes E ref_files of
               (t, Inl e) \<Rightarrow> (Print ''Reference File Validation:'' # t, Inl e)
             | (t, Inr u) \<Rightarrow> (Print ''Reference File Validation:'' # t, Inr True))))"

section \<open>Fingerprint construction\<close>

text \<open>
  The extraction loop of both builders: a file whose extraction raises is reported and
  skipped, the others contribute their residual, in order.
\<close>

fun extract_all :: "env \<Rightarrow> string list \<Rightarrow> event list \<times> fval ndarray list" where
  "extract_all E [] = ([], [])"
| "extract_all E (f # fs) =
     (case extract_all E fs of
        (t, residuals) \<Rightarrow>
          (case extract_residual E f of
             Inr res \<Rightarrow> (Imread f # Print (''[+] Processed '' @ f) # t, res # residuals)
           | Inl e \<Rightarrow>
               (Imread f # Print (''[!] Skipping '' @ f @ '', error: '' @ err_str e) # t,
                residuals)))"

text \<open>Python's \<open>min\<close> of a sequence raises on the empty sequence.\<close>

fun py_min :: "nat list \<Rightarrow> py_error + nat" where
  "py_min [] = Inl MinEmptyError"
| "py_min (x # xs) = Inr (fold min xs x)"

definition align_shapes :: "fval ndarray list \<Rightarrow> py_error + fval ndarray list" where
  "align_shapes residuals =
     (case py_min (map rows residuals) of
        Inl e \<Rightarrow> Inl e
      | Inr min_h \<Rightarrow>
         (case py_min (map cols residuals) of
            Inl e \<Rightarrow> Inl e
          | Inr min_w \<Rightarrow> Inr (map (\<lambda>r. crop r min_h min_w) residuals)))"

text \<open>
  \<open>np.mean(residuals, axis=0)\<close>: the element-wise mean of a list of arrays of one shape;
  numpy raises when the shapes differ. On the empty list numpy yields NaN; the builders
  never get there, since \<open>min\<close> has raised before.
\<close>

fun np_mean_axis0 :: "fval ndarray list \<Rightarrow> py_error + fval ndarray" where
  "np_mean_axis0 [] = Inr \<lparr>rows = 0, cols = 0, cell = (\<lambda>i j. NaN)\<rparr>"
| "np_mean_axis0 (r # rs) =
     (if list_all (\<lambda>a. rows a = rows r \<and> cols a = cols r) rs
      then Inr \<lparr>rows = rows r, cols = cols r,
                cell = (\<lambda>i j. mean_list_f (map (\<lambda>a. cell a i j) (r # rs)))\<rparr>
      else Inl InhomogeneousError)"

text \<open>The code of both builders after the loop.\<close>

definition make_fingerprint :: "fval ndarray list \<Rightarrow> py_error + fval ndarray" where
  "make_fingerprint residuals =
     (case align_shapes residuals of
        Inl e \<Rightarrow> Inl e
      | Inr cropped \<Rightarrow>
         (case np_mean_axis0 cropped of
            Inl e \<Rightarrow> Inl e
          | Inr fingerprint \<Rightarrow>
              Inr (map_arr (\<lambda>x. fdiv x (np_std fingerprint)) fingerprint)))"

text \<open>\<open>build_reference_fingerprint\<close> of the strict pipeline.\<close>

definition build_reference_fingerprint ::
  "env \<Rightarrow> string \<Rightarrow> event list \<times> (py_error + fval ndarray)" where
  "build_reference_fingerprint E ref_folder =
     (let ref_files = glob_cr2 E ref_folder
      in case validate_references E ref_files of
           (t1, Inl e) \<Rightarrow> (t1, Inl e)
         | (t1, Inr ok) \<Rightarrow>
            (case extract_all E ref_files of
               (t2, residuals) \<Rightarrow> (t1 @ t2, make_fingerprint residuals)))"

text \<open>\<open>build_fingerprint\<close> of \<open>full_prnu_pipeline.py\<close>.\<close>

definition lenient_size_error :: py_error where
  "lenient_size_error =
     ValueError ''Need at least 10 reference CR2 files for reliable fingerprint''"

definition build_fingerprint ::
  "env \<Rightarrow> string \<Rightarrow> event list \<times> (py_error + fval ndarray)" where
  "build_fingerprint E ref_folder =
     (let ref_files = glob_cr2 E ref_folder
      in if length ref_files < 10 then ([], Inl lenient_size_error)
         else
           (case extract_all E ref_files of
              (t, residuals) \<Rightarrow> (t, make_fingerprint residuals)))"

section \<open>Correlation\<close>

text \<open>
  The score expression shared by \<open>compare_to_fingerprint\<close> and \<open>compare_prnu\<close>:
  \<open>np.sum(a * b) / (np.sqrt(np.sum(a**2)) * np.sqrt(np.sum(b**2)))\<close>.
\<close>

definition ncc :: "fval ndarray \<Rightarrow> fval ndarray \<Rightarrow> py_error + fval" where
  "ncc a b =
     (case np_binop fmul a b of
        Inl e \<Rightarrow> Inl e
      | Inr p \<Rightarrow>
          Inr (fdiv (np_sum p)
                 (fmul (fsqrt (np_sum (map_arr fsq a))) (fsqrt (np_sum (map_arr fsq b))))))"

text \<open>
  \<open>compare_to_fingerprint\<close>; the two pipelines differ in the prefix of the name of the
  saved figure only. The source prints the score and returns nothing; the model returns
  the score it prints.
\<close>

definition compare_with ::
  "string \<Rightarrow> env \<Rightarrow> string \<Rightarrow> fval ndarray \<Rightarrow> event list \<times> (py_error + fval)" where
  "compare_with prefix E test_img fingerprint =
     (case extract_residual E test_img of
        Inl e \<Rightarrow> ([Imread test_img], Inl e)
      | Inr res \<Rightarrow>
         (let h = rows fingerprint; w = cols fingerprint;
              res_test = crop res h w
          in case ncc res_test fingerprint of
               Inl e \<Rightarrow> ([Imread test_img], Inl e)
             | Inr corr \<Rightarrow>
                (let outname = prefix @ basename test_img @ ''.png''
                 in ([Imread test_img, Savefig outname,
                      Print (''[+] Saved residual comparison: '' @ outname),
                      PrintScore corr], Inr corr))))"

definition compare_to_fingerprint ::
  "env \<Rightarrow> string \<Rightarrow> fval ndarray \<Rightarrow> event list \<times> (py_error + fval)" where
  "compare_to_fingerprint = compare_with ''PRNU_test_''"

definition compare_to_fingerprint_strict ::
  "env \<Rightarrow> string \<Rightarrow> fval ndarray \<Rightarrow> event list \<times> (py_error + fval)" where
  "compare_to_fingerprint_strict = compare_with ''PRNU_strict_''"

text \<open>\<open>compare_prnu\<close> of \<open>prnu_compare.py\<close>.\<close>

definition compare_prnu :: "env \<Rightarrow> string \<Rightarrow> string \<Rightarrow> event list \<times> (py_error + fval)" where
  "compare_prnu E cr2_a cr2_b =
     (case extract_noise_residual E cr2_a of
        Inl e \<Rightarrow> ([Imread cr2_a], Inl e)
      | Inr res_a \<Rightarrow>
         (case extract_noise_residual E cr2_b of
            Inl e \<Rightarrow> ([Imread cr2_a, Imread cr2_b], Inl e)
          | Inr res_b \<Rightarrow>
             (case ncc res_a res_b of
                Inl e \<Rightarrow> ([Imread cr2_a, Imread cr2_b], Inl e)
              | Inr corr \<Rightarrow>
                 (let outname = ''PRNU_compare_'' @ basename cr2_a @ ''_'' @ basename cr2_b
                                  @ ''.png''
                  in ([Imread cr2_a, Imread cr2_b, Savefig outname,
                       Print (''[+] Residuals saved: '' @ outname),
                       PrintScore corr], Inr corr)))))"

section \<open>The size rule as the specification words it\<close>

text \<open>
  The specification describes the minimum as an option of a configuration,
  \<open>{minimum_reference_count, require_extension_check, log_chain_of_custody}\<close>, and the
  size rule as ``cardinality at least the configured minimum''. This definition follows
  those words, for comparison with \<open>validate_references\<close> and \<open>build_fingerprint\<close>.
\<close>

record config =
  minimum_reference_count :: nat
  require_extension_check :: bool
  log_chain_of_custody :: bool

definition configured_size_rule :: "config \<Rightarrow> string list \<Rightarrow> bool" where
  "configured_size_rule cfg ref_files = (minimum_reference_count cfg \<le> length ref_files)"

section \<open>Auxiliary notions for the proofs\<close>

text \<open>Mean and (population) variance of a list of reals.\<close>

definition rmean :: "real list \<Rightarrow> real" where
  "rmean rs = sum_list rs / real (length rs)"

definition rvar :: "real list \<Rightarrow> real" where
  "rvar rs = sum_list (map (\<lambda>x. (x - rmean rs) * (x - rmean rs)) rs) / real (length rs)"

text \<open>The real numbers \<open>gray - denoised\<close>.\<close>

definition residual_values :: "env \<Rightarrow> real ndarray \<Rightarrow> real ndarray" where
  "residual_values E gray =
     \<lparr>rows = rows gray, cols = cols gray,
      cell = (\<lambda>i j. cell gray i j - gaussian_blur E gray i j)\<rparr>"

section \<open>A concrete environment\<close>

text \<open>
  Three small rasters and a file system: folder \<open>refs\<close> holds fifteen \<open>.CR2\<close> files, of
  which only \<open>a.CR2\<close> and \<open>b.CR2\<close> decode, a text file and a lower-case \<open>.cr2\<close> file;
  folder \<open>bad\<close> holds fifteen \<open>.CR2\<close> files that do not decode; folder \<open>few\<close> holds nine
  files. Every file can be read and has a digest of its own. The low-pass filter of this
  environment averages the first two pixels of a row.
\<close>

definition gray_a :: "real ndarray" where
  "gray_a = \<lparr>rows = 1, cols = 2, cell = (\<lambda>i j. if j = 0 then 0 else 4)\<rparr>"

definition gray_b :: "real ndarray" where
  "gray_b = \<lparr>rows = 2, cols = 3, cell = (\<lambda>i j. if even (i + j) then 0 else 4)\<rparr>"

definition gray_uniform :: "real ndarray" where
  "gray_uniform = \<lparr>rows = 1, cols = 2, cell = (\<lambda>i j. 7)\<rparr>"

definition cr2_names :: "string list" where
  "cr2_names = [''a.CR2'', ''b.CR2'', ''c.CR2'', ''d.CR2'', ''e.CR2'', ''f.CR2'', ''g.CR2'',
                ''h.CR2'', ''i.CR2'', ''j.CR2'', ''k.CR2'', ''l.CR2'', ''m.CR2'', ''n.CR2'',
                ''o.CR2'']"

definition example_env :: env where
  "example_env =
     \<lparr>listdir = (\<lambda>d. if d = ''refs'' then cr2_names @ [''notes.txt'', ''p.cr2'']
                      else if d = ''bad'' then cr2_names
                      else if d = ''few'' then take 9 cr2_names
                      else []),
      glob_dirs = (\<lambda>p. []),
      read_sha256 = (\<lambda>f. Inr (''digest-of-'' @ basename f)),
      imread_gray = (\<lambda>f. if f = ''refs/a.CR2'' then Inr gray_a
                          else if f = ''refs/b.CR2'' then Inr gray_b
                          else if f = ''uniform.CR2'' then Inr gray_uniform
                          else Inl ''unsupported file format''),
      gaussian_blur = (\<lambda>g i j. (cell g i 0 + cell g i 1) / 2)\<rparr>"

text \<open>The same environment, except that \<open>refs/c.CR2\<close> cannot be read.\<close>

definition unreadable_env :: env where
  "unreadable_env =
     example_env\<lparr>read_sha256 :=
       (\<lambda>f. if f = ''refs/c.CR2'' then Inl ''Permission denied''
            else read_sha256 example_env f)\<rparr>"

definition fingerprint_3x4 :: "fval ndarray" where
  "fingerprint_3x4 = \<lparr>rows = 3, cols = 4, cell = (\<lambda>i j. Fin 1)\<rparr>"

text \<open>Two arrays of one shape.\<close>

definition grid_x :: "fval ndarray" where
  "grid_x = \<lparr>rows = 1, cols = 2, cell = (\<lambda>i j. if j = 0 then Fin 3 else Fin 4)\<rparr>"

definition grid_y :: "fval ndarray" where
  "grid_y = \<lparr>rows = 1, cols = 2, cell = (\<lambda>i j. if j = 0 then Fin 4 else Fin 3)\<rparr>"

text \<open>
  Two sets of fifteen names: one with a JPEG and, after it, a PNG; one with mixed-case
  extensions.
\<close>

definition fs_with_jpg :: "string list" where
  "fs_with_jpg = take 2 cr2_names @ [''x.jpg'', ''y.png''] @ take 11 cr2_names"

definition fs_mixed_case :: "string list" where
  "fs_mixed_case = [''IMG_1.cr2'', ''IMG_2.Cr2''] @ take 13 cr2_names"

text \<open>The paths of the fifteen \<open>.CR2\<close> files of folder \<open>refs\<close>.\<close>

definition refs_files :: "string list" where
  "refs_files = map (\<lambda>n. ''refs/'' @ n) cr2_names"

definition refs_digests :: "string list" where
  "refs_digests = map (\<lambda>n. ''digest-of-'' @ n) cr2_names"

section \<open>Arithmetic on finite values\<close>

lemma foldl_fadd_Fin: "foldl fadd (Fin c) (map Fin rs) = Fin (c + sum_list rs)"
  by (induction rs arbitrary: c) (simp_all add: add.assoc)

lemma sum_list_f_Fin: "sum_list_f (map Fin rs) = Fin (sum_list rs)"
  by (simp add: sum_list_f_def foldl_fadd_Fin)

lemma mean_list_f_Fin:
  "rs \<noteq> [] \<Longrightarrow> mean_list_f (map Fin rs) = Fin (sum_list rs / real (length rs))"
  by (simp add: mean_list_f_def sum_list_f_Fin)

lemma rvar_nonneg: "0 \<le> rvar rs"
  unfolding rvar_def by (intro divide_nonneg_nonneg sum_list_nonneg) auto

lemma std_list_f_Fin:
  assumes "rs \<noteq> []"
  shows "std_list_f (map Fin rs) = Fin (sqrt (rvar rs))"
proof -
  have m: "mean_list_f (map Fin rs) = Fin (rmean rs)"
    using assms by (simp add: mean_list_f_Fin rmean_def)
  have e: "map (\<lambda>x. fsq (fsub x (Fin (rmean rs)))) (map Fin rs)
        = map Fin (map (\<lambda>x. (x - rmean rs) * (x - rmean rs)) rs)"
    by (simp add: fsq_def fsub_def)
  have "mean_list_f (map (\<lambda>x. fsq (fsub x (Fin (rmean rs)))) (map Fin rs)) = Fin (rvar rs)"
    unfolding e using assms mean_list_f_Fin[of "map (\<lambda>x. (x - rmean rs) * (x - rmean rs)) rs"]
    by (simp add: rvar_def)
  then show ?thesis
    using rvar_nonneg[of rs] by (simp add: std_list_f_def m)
qed

lemma sum_list_divide: "sum_list (map (\<lambda>x. f x / (c::real)) rs) = sum_list (map f rs) / c"
  by (induction rs) (simp_all add: add_divide_distrib)

lemma rmean_scale: "rmean (map (\<lambda>x. x / c) rs) = rmean rs / c"
  by (simp add: rmean_def sum_list_divide[of "\<lambda>x. x"])

lemma rvar_scale: "rvar (map (\<lambda>x. x / c) rs) = rvar rs / (c * c)"
proof -
  have "(\<lambda>x. (x / c - rmean rs / c) * (x / c - rmean rs / c))
        = (\<lambda>x. ((x - rmean rs) * (x - rmean rs)) / (c * c))"
    by (rule ext) (simp add: diff_divide_distrib[symmetric])
  then show ?thesis
    by (simp add: rvar_def rmean_scale o_def sum_list_divide)
qed

lemma rvar_normalised:
  assumes "sqrt (rvar rs) \<noteq> 0"
  shows "sqrt (rvar (map (\<lambda>x. x / sqrt (rvar rs)) rs)) = 1"
proof -
  have pos: "0 < rvar rs" using assms rvar_nonneg[of rs] by (cases "rvar rs = 0") auto
  have "sqrt (rvar rs) * sqrt (rvar rs) = rvar rs" using pos by simp
  then show ?thesis using pos by (simp add: rvar_scale)
qed

lemma flat_map_arr: "flat (map_arr f a) = map f (flat a)"
  by (simp add: flat_def map_arr_def map_concat o_def)

lemma flat_cong:
  assumes "rows a = rows b" "cols a = cols b"
    and "\<And>i j. i < rows a \<Longrightarrow> j < cols a \<Longrightarrow> cell a i j = cell b i j"
  shows "flat a = flat b"
  using assms by (auto simp: flat_def intro!: arg_cong[where f=concat])

lemma flat_Nil_iff: "flat a = [] \<longleftrightarrow> rows a = 0 \<or> cols a = 0"
  by (auto simp: flat_def)

lemma bdim_same: "bdim n n = Some n"
  by (simp add: bdim_def)

lemma bidx_less: "i < n \<Longrightarrow> bidx n i = i"
  by (simp add: bidx_def)

lemma raw_residual_shape:
  assumes "raw_residual E gray = Inr raw"
  shows "rows raw = rows gray" and "cols raw = cols gray"
    and "flat raw = map Fin (flat (residual_values E gray))"
proof -
  have raw: "raw = \<lparr>rows = rows gray, cols = cols gray,
      cell = (\<lambda>i j. fsub (Fin (cell gray (bidx (rows gray) i) (bidx (cols gray) j)))
          (Fin (gaussian_blur E gray (bidx (rows gray) i) (bidx (cols gray) j))))\<rparr>"
    using assms
    by (simp add: raw_residual_def GaussianBlur_def np_binop_def map_arr_def bdim_same)
  show "rows raw = rows gray" and "cols raw = cols gray"
    by (simp_all add: raw)
  have "flat raw = flat (map_arr Fin (residual_values E gray))"
    by (rule flat_cong)
      (simp_all add: raw map_arr_def residual_values_def bidx_less fsub_def)
  then show "flat raw = map Fin (flat (residual_values E gray))"
    by (simp add: flat_map_arr)
qed

lemma raw_residual_total: "\<exists>raw. raw_residual E gray = Inr raw"
  by (simp add: raw_residual_def GaussianBlur_def np_binop_def map_arr_def bdim_same)

lemma std_list_f_Nil: "std_list_f [] = NaN"
  by (simp add: std_list_f_def mean_list_f_def sum_list_f_def signed_inf_def)

section \<open>Claim C1: the extracted residual has unit standard deviation\<close>

text \<open>
  C1. Whenever the file decodes to a luminance raster \<open>gray\<close> and the raw residual
  \<open>gray - denoised\<close> has a nonzero (finite) standard deviation \<open>s\<close>,
  \<open>extract_residual\<close> returns an array whose standard deviation is 1 and whose shape is
  that of \<open>gray\<close>. In exact arithmetic the tolerance of the statement is zero.
\<close>

theorem extract_residual_unit_std:
  assumes "imread_gray E img_path = Inr gray"
    and "raw_residual E gray = Inr raw"
    and "np_std raw = Fin s"
    and "s \<noteq> 0"
  shows "\<exists>r. extract_residual E img_path = Inr r \<and> np_std r = Fin 1
            \<and> rows r = rows gray \<and> cols r = cols gray"
proof -
  define ds where "ds = flat (residual_values E gray)"
  have fl: "flat raw = map Fin ds"
    using raw_residual_shape(3)[OF assms(2)] by (simp add: ds_def)
  have ne: "ds \<noteq> []"
    using assms(3) by (auto simp: np_std_def fl std_list_f_Nil)
  have s: "s = sqrt (rvar ds)"
    using assms(3) ne by (simp add: np_std_def fl std_list_f_Fin)
  define r where "r = map_arr (\<lambda>x. fdiv x (np_std raw)) raw"
  have ex: "extract_residual E img_path = Inr r"
    by (simp add: extract_residual_def assms(1,2) r_def)
  have fr: "flat r = map Fin (map (\<lambda>x. x / s) ds)"
    using assms(4) by (simp add: r_def flat_map_arr fl assms(3))
  have "np_std r = Fin (sqrt (rvar (map (\<lambda>x. x / s) ds)))"
    unfolding np_std_def fr using ne by (intro std_list_f_Fin) simp
  also have "\<dots> = Fin 1"
    using rvar_normalised[of ds] assms(4) by (simp add: s)
  finally have "np_std r = Fin 1" .
  moreover have "rows r = rows gray" "cols r = cols gray"
    using raw_residual_shape(1,2)[OF assms(2)] by (simp_all add: r_def map_arr_def)
  ultimately show ?thesis using ex by blast
qed

text \<open>Evaluation of small index ranges.\<close>

lemma upt_2: "[0..<2] = [0, 1]"
  by (simp add: upt_rec)


theorem extract_residual_unit_std_witness:
  "imread_gray example_env ''refs/a.CR2'' = Inr gray_a
   \<and> (\<exists>raw. raw_residual example_env gray_a = Inr raw \<and> np_std raw = Fin 2)
   \<and> (2::real) \<noteq> 0
   \<and> (\<exists>r. extract_residual example_env ''refs/a.CR2'' = Inr r \<and> np_std r = Fin 1
            \<and> rows r = rows gray_a \<and> cols r = cols gray_a)"
proof -
  have i: "imread_gray example_env ''refs/a.CR2'' = Inr gray_a"
    by (simp add: example_env_def)
  obtain raw where raw: "raw_residual example_env gray_a = Inr raw"
    using raw_residual_total by blast
  have "flat (residual_values example_env gray_a) = [- 2, 2]"
    by (simp add: residual_values_def example_env_def gray_a_def flat_def upt_2)
  then have "flat raw = [Fin (- 2), Fin 2]"
    using raw_residual_shape(3)[OF raw] by simp
  then have s: "np_std raw = Fin 2"
    by (simp add: np_std_def std_list_f_def mean_list_f_def sum_list_f_def fsq_def fsub_def)
  have n: "(2::real) \<noteq> 0" by simp
  show ?thesis
    using i raw s n extract_residual_unit_std [OF i raw s n] by blast
qed

section \<open>Claim C8: the correlation score is symmetric\<close>

lemma fmul_commute: "fmul a b = fmul b a"
  by (cases a; cases b) (simp_all add: mult.commute)

lemma bdim_commute: "bdim m n = bdim n m"
  by (auto simp: bdim_def)

lemma np_binop_fmul_commute: "np_binop fmul a b = np_binop fmul b a"
proof -
  have e: "(\<lambda>i j. fmul (cell a (bidx (rows a) i) (bidx (cols a) j))
                    (cell b (bidx (rows b) i) (bidx (cols b) j)))
      = (\<lambda>i j. fmul (cell b (bidx (rows b) i) (bidx (cols b) j))
                    (cell a (bidx (rows a) i) (bidx (cols a) j)))"
    by (intro ext) (rule fmul_commute)
  have r: "bdim (rows b) (rows a) = bdim (rows a) (rows b)"
    and c: "bdim (cols b) (cols a) = bdim (cols a) (cols b)"
    by (rule bdim_commute)+
  show ?thesis
    unfolding np_binop_def r c e ..
qed

lemma ncc_commute: "ncc a b = ncc b a"
proof -
  have d: "fmul (fsqrt (np_sum (map_arr fsq b))) (fsqrt (np_sum (map_arr fsq a)))
         = fmul (fsqrt (np_sum (map_arr fsq a))) (fsqrt (np_sum (map_arr fsq b)))"
    by (rule fmul_commute)
  show ?thesis
    unfolding ncc_def np_binop_fmul_commute[of b a] d ..
qed

lemma ncc_same_shape:
  assumes "rows a = rows b" and "cols a = cols b"
  shows "\<exists>s. ncc a b = Inr s"
  using assms by (simp add: ncc_def np_binop_def bdim_same)

text \<open>
  C8. For two arrays of one shape whose sums of squares are not zero, the score
  \<open>sum(a*b) / (sqrt(sum(a^2)) * sqrt(sum(b^2)))\<close> is defined and is the same value with the
  operands swapped. The equality is exact: only commutative operations change sides.
\<close>

theorem ncc_symmetric:
  assumes "rows a = rows b" and "cols a = cols b"
    and "np_sum (map_arr fsq a) \<noteq> Fin 0" and "np_sum (map_arr fsq b) \<noteq> Fin 0"
  shows "\<exists>s. ncc a b = Inr s \<and> ncc b a = Inr s"
  using ncc_same_shape[OF assms(1,2)] ncc_commute[of a b] by auto

lemma np_sum_sq_grid_x: "np_sum (map_arr fsq grid_x) = Fin 25"
  by (simp add: np_sum_def map_arr_def sum_list_f_def flat_def grid_x_def upt_2 fsq_def)

lemma np_sum_sq_grid_y: "np_sum (map_arr fsq grid_y) = Fin 25"
  by (simp add: np_sum_def map_arr_def sum_list_f_def flat_def grid_y_def upt_2 fsq_def)

theorem ncc_symmetric_witness:
  "rows grid_x = rows grid_y \<and> cols grid_x = cols grid_y
   \<and> np_sum (map_arr fsq grid_x) \<noteq> Fin 0 \<and> np_sum (map_arr fsq grid_y) \<noteq> Fin 0
   \<and> ncc grid_x grid_y = Inr (Fin (24 / 25)) \<and> ncc grid_y grid_x = Inr (Fin (24 / 25))"
proof -
  have r: "rows grid_x = rows grid_y" and c: "cols grid_x = cols grid_y"
    by (simp_all add: grid_x_def grid_y_def)
  have x: "np_sum (map_arr fsq grid_x) \<noteq> Fin 0" and y: "np_sum (map_arr fsq grid_y) \<noteq> Fin 0"
    by (simp_all add: np_sum_sq_grid_x np_sum_sq_grid_y)
  have v: "ncc grid_x grid_y = Inr (Fin (24 / 25))"
    unfolding ncc_def np_sum_sq_grid_x np_sum_sq_grid_y
    by (simp add: np_binop_def bdim_same np_sum_def sum_list_f_def flat_def grid_x_def
        grid_y_def upt_2 bidx_def)
  show ?thesis
    using r c x y v ncc_symmetric [OF r c x y] by auto
qed

section \<open>Outcome of the extraction\<close>

lemma extract_residual_Inr:
  assumes "imread_gray E img_path = Inr gray"
  shows "\<exists>res. extract_residual E img_path = Inr res \<and> rows res = rows gray
           \<and> cols res = cols gray"
proof -
  obtain raw where raw: "raw_residual E gray = Inr raw"
    using raw_residual_total by blast
  show ?thesis
    using raw_residual_shape(1,2)[OF raw]
    by (simp add: extract_residual_def assms raw map_arr_def)
qed

lemma extract_residual_Inl:
  "imread_gray E img_path = Inl m \<Longrightarrow> extract_residual E img_path = Inl (ExternalError m)"
  by (simp add: extract_residual_def)

lemma extract_noise_residual_eq: "extract_noise_residual = extract_residual"
  by (intro ext) (simp add: extract_noise_residual_def extract_residual_def)

section \<open>Claim C10: a test residual smaller than the fingerprint\<close>

lemma bdim_None: "m \<noteq> n \<Longrightarrow> m \<noteq> 1 \<Longrightarrow> n \<noteq> 1 \<Longrightarrow> bdim m n = None"
  by (simp add: bdim_def)

lemma ncc_smaller:
  assumes "rows res < rows fp \<or> cols res < cols fp"
    and "rows res \<noteq> 1" and "cols res \<noteq> 1" and "rows fp \<noteq> 1" and "cols fp \<noteq> 1"
  shows "ncc (crop res (rows fp) (cols fp)) fp = Inl BroadcastError"
proof (cases "rows res < rows fp")
  case True
  then have "bdim (min (rows res) (rows fp)) (rows fp) = None"
    using assms(2,4) by (intro bdim_None) auto
  then show ?thesis
    by (simp add: ncc_def np_binop_def crop_def)
next
  case False
  then have c: "cols res < cols fp" using assms(1) by simp
  then have "bdim (min (cols res) (cols fp)) (cols fp) = None"
    using assms(3,5) by (intro bdim_None) auto
  then show ?thesis
    by (simp add: ncc_def np_binop_def crop_def split: option.splits)
qed

text \<open>
  C10. When the residual of the test image is smaller than the fingerprint along an axis
  and no axis of either array has length 1, \<open>compare_to_fingerprint\<close> (in both pipelines)
  produces no score: the crop leaves an array smaller than the fingerprint and the
  element-wise product raises the shape error of numpy, which nothing handles.
\<close>

theorem compare_smaller_test_raises:
  assumes "extract_residual E test_img = Inr res"
    and "rows res < rows fingerprint \<or> cols res < cols fingerprint"
    and "rows res \<noteq> 1" and "cols res \<noteq> 1"
    and "rows fingerprint \<noteq> 1" and "cols fingerprint \<noteq> 1"
  shows "compare_to_fingerprint E test_img fingerprint = ([Imread test_img], Inl BroadcastError)
       \<and> compare_to_fingerprint_strict E test_img fingerprint
           = ([Imread test_img], Inl BroadcastError)"
  using ncc_smaller[OF assms(2-6)]
  by (simp add: compare_to_fingerprint_def compare_to_fingerprint_strict_def compare_with_def
      assms(1))

theorem compare_smaller_test_raises_witness:
  "(\<exists>res. extract_residual example_env ''refs/b.CR2'' = Inr res
      \<and> (rows res < rows fingerprint_3x4 \<or> cols res < cols fingerprint_3x4)
      \<and> rows res \<noteq> 1 \<and> cols res \<noteq> 1)
   \<and> rows fingerprint_3x4 \<noteq> 1 \<and> cols fingerprint_3x4 \<noteq> 1
   \<and> compare_to_fingerprint example_env ''refs/b.CR2'' fingerprint_3x4
       = ([Imread ''refs/b.CR2''], Inl BroadcastError)
   \<and> compare_to_fingerprint_strict example_env ''refs/b.CR2'' fingerprint_3x4
       = ([Imread ''refs/b.CR2''], Inl BroadcastError)"
proof -
  have "imread_gray example_env ''refs/b.CR2'' = Inr gray_b"
    by (simp add: example_env_def)
  then obtain res where res: "extract_residual example_env ''refs/b.CR2'' = Inr res"
    and sh: "rows res = 2" "cols res = 3"
    using extract_residual_Inr[of example_env "''refs/b.CR2''" gray_b]
    by (auto simp: gray_b_def)
  have s: "rows res < rows fingerprint_3x4 \<or> cols res < cols fingerprint_3x4"
    and r: "rows res \<noteq> 1" and c: "cols res \<noteq> 1"
    and fr: "rows fingerprint_3x4 \<noteq> 1" and fc: "cols fingerprint_3x4 \<noteq> 1"
    by (simp_all add: sh fingerprint_3x4_def)
  show ?thesis
    using res s r c fr fc compare_smaller_test_raises [OF res s r c fr fc] by blast
qed

section \<open>Claim C3: a residual of standard deviation zero\<close>

lemma signed_inf_not_finite: "\<not> is_finite (signed_inf x)"
  by (simp add: signed_inf_def)

lemma extract_residual_zero_std:
  assumes "imread_gray E img_path = Inr gray"
    and "raw_residual E gray = Inr raw"
    and "np_std raw = Fin 0"
  shows "\<exists>r. extract_residual E img_path = Inr r \<and> flat r \<noteq> []
            \<and> list_all (\<lambda>x. \<not> is_finite x) (flat r)"
proof -
  define ds where "ds = flat (residual_values E gray)"
  have fl: "flat raw = map Fin ds"
    using raw_residual_shape(3)[OF assms(2)] by (simp add: ds_def)
  have ne: "ds \<noteq> []"
    using assms(3) by (auto simp: np_std_def fl std_list_f_Nil)
  define r where "r = map_arr (\<lambda>x. fdiv x (np_std raw)) raw"
  have ex: "extract_residual E img_path = Inr r"
    by (simp add: extract_residual_def assms(1,2) r_def)
  have fr: "flat r = map signed_inf ds"
    by (simp add: r_def flat_map_arr fl assms(3))
  show ?thesis
    using ex ne by (simp add: fr list_all_iff signed_inf_not_finite)
qed

text \<open>
  C3. On a uniform raster the raw residual is zero everywhere and its standard deviation
  is zero: \<open>extract_residual\<close> (and \<open>extract_noise_residual\<close>) raise nothing and return
  an array of NaN. The lemma before shows the same for every raster whose raw residual has
  standard deviation zero: the result is an array without a single finite element.
\<close>

theorem extract_residual_uniform_returns_nan:
  "map_sum id flat (extract_residual example_env ''uniform.CR2'') = Inr [NaN, NaN]
   \<and> map_sum id flat (extract_noise_residual example_env ''uniform.CR2'') = Inr [NaN, NaN]"
proof -
  have i: "imread_gray example_env ''uniform.CR2'' = Inr gray_uniform"
    by (simp add: example_env_def)
  obtain raw where raw: "raw_residual example_env gray_uniform = Inr raw"
    using raw_residual_total by blast
  have "flat (residual_values example_env gray_uniform) = [0, 0]"
    by (simp add: residual_values_def example_env_def gray_uniform_def flat_def upt_2)
  then have fl: "flat raw = [Fin 0, Fin 0]"
    using raw_residual_shape(3)[OF raw] by simp
  then have s: "np_std raw = Fin 0"
    by (simp add: np_std_def std_list_f_def mean_list_f_def sum_list_f_def fsq_def fsub_def)
  have "map_sum id flat (extract_residual example_env ''uniform.CR2'') = Inr [NaN, NaN]"
    by (simp add: extract_residual_def i raw flat_map_arr fl s signed_inf_def)
  then show ?thesis
    by (simp add: extract_noise_residual_eq)
qed

section \<open>Paths and the validator\<close>

lemma endswith_iff: "endswith s suf \<longleftrightarrow> (\<exists>p. s = p @ suf)"
proof
  assume "endswith s suf"
  then have "s = take (length s - length suf) s @ suf"
    by (metis append_take_drop_id endswith_def)
  then show "\<exists>p. s = p @ suf" ..
next
  assume "\<exists>p. s = p @ suf"
  then show "endswith s suf" by (auto simp: endswith_def)
qed

lemma lower_append: "lower (p @ q) = lower p @ lower q"
  by (simp add: lower_def)

lemma lower_CR2: "lower ''.CR2'' = ''.cr2''"
  by (simp add: lower_def lower_char_def is_ascii_upper_def)

lemma endswith_CR2_lower: "endswith f ''.CR2'' \<Longrightarrow> endswith (lower f) ''.cr2''"
  unfolding endswith_iff by (metis lower_append lower_CR2)

lemma endswith_os_path_join: "endswith n suf \<Longrightarrow> endswith (os_path_join d n) suf"
  unfolding endswith_iff os_path_join_def by (metis append.assoc)

lemma glob1_cr2_endswith: "f \<in> set (glob1_cr2 E d) \<Longrightarrow> endswith f ''.CR2''"
  by (auto simp: glob1_cr2_def endswith_os_path_join)

lemma glob_cr2_endswith: "list_all (\<lambda>f. endswith f ''.CR2'') (glob_cr2 E ref_folder)"
  by (auto simp: glob_cr2_def Let_def list_all_iff dest: glob1_cr2_endswith)

lemma check_extensions_ok:
  "list_all (\<lambda>f. endswith (lower f) ''.cr2'') fs \<Longrightarrow> check_extensions fs = Inr ()"
  by (induction fs) simp_all

lemma check_extensions_bad:
  "\<not> list_all (\<lambda>f. endswith (lower f) ''.cr2'') fs \<Longrightarrow>
   \<exists>f\<in>set fs. \<not> endswith (lower f) ''.cr2'' \<and> check_extensions fs = Inl (extension_error f)"
  by (induction fs) auto

lemma log_hashes_ok:
  "map (read_sha256 E) fs = map Inr hs \<Longrightarrow>
   log_hashes E fs = (map2 (\<lambda>f h. Print (hash_line f h)) fs hs, Inr ())"
proof (induction fs arbitrary: hs)
  case Nil
  then show ?case by simp
next
  case (Cons f fs)
  then obtain h hs' where hs: "hs = h # hs'" by (cases hs) auto
  with Cons show ?case by simp
qed

lemma log_hashes_error: "snd (log_hashes E fs) = Inl e \<Longrightarrow> \<exists>m. e = ExternalError m"
  by (induction fs) (auto split: sum.splits prod.splits)

lemma size_error_neq_extension_error: "size_error \<noteq> extension_error f"
  by (simp add: size_error_def extension_error_def)

lemma validate_references_small:
  "length fs < 15 \<Longrightarrow> validate_references E fs = ([], Inl size_error)"
  by (simp add: validate_references_def)

lemma validate_references_cases:
  assumes "15 \<le> length fs"
  shows "(\<exists>f\<in>set fs. \<not> endswith (lower f) ''.cr2''
            \<and> validate_references E fs = ([], Inl (extension_error f)))
       \<or> (list_all (\<lambda>f. endswith (lower f) ''.cr2'') fs
            \<and> (\<exists>t. validate_references E fs = (t, Inr True)
                  \<or> (\<exists>m. validate_references E fs = (t, Inl (ExternalError m)))))"
proof (cases "list_all (\<lambda>f. endswith (lower f) ''.cr2'') fs")
  case True
  obtain t r where l: "log_hashes E fs = (t, r)" by (cases "log_hashes E fs")
  show ?thesis
  proof (cases r)
    case (Inl e)
    then obtain m where "e = ExternalError m"
      using log_hashes_error[of E fs e] l by auto
    then show ?thesis
      using assms True l Inl by (simp add: validate_references_def check_extensions_ok)
  next
    case (Inr u)
    then show ?thesis
      using assms True l by (simp add: validate_references_def check_extensions_ok)
  qed
next
  case False
  then show ?thesis
    using assms check_extensions_bad[OF False]
    by (auto simp: validate_references_def)
qed

section \<open>Claim C5: the size rule\<close>

lemma py_min_error: "py_min xs = Inl e \<Longrightarrow> e = MinEmptyError"
  by (cases xs) simp_all

lemma make_fingerprint_error:
  "make_fingerprint rs = Inl e \<Longrightarrow> e = MinEmptyError \<or> e = InhomogeneousError"
  unfolding make_fingerprint_def align_shapes_def
  by (cases rs) (auto split: sum.splits if_splits dest: py_min_error)

lemma make_fingerprint_not_ValueError: "make_fingerprint rs \<noteq> Inl (ValueError m)"
  using make_fingerprint_error[of rs "ValueError m"] by auto

lemma build_fingerprint_small:
  "length (glob_cr2 E d) < 10 \<Longrightarrow> build_fingerprint E d = ([], Inl lenient_size_error)"
  by (simp add: build_fingerprint_def)

lemma build_fingerprint_large:
  "10 \<le> length (glob_cr2 E d) \<Longrightarrow> snd (build_fingerprint E d) \<noteq> Inl lenient_size_error"
  by (simp add: build_fingerprint_def lenient_size_error_def make_fingerprint_not_ValueError
      split: prod.splits)

lemma validate_references_large:
  assumes "15 \<le> length fs"
  shows "snd (validate_references E fs) \<noteq> Inl size_error"
  using validate_references_cases[OF assms, of E]
  by (auto simp: size_error_def extension_error_def)

text \<open>
  C5 (as amended). \<open>validate_references\<close> rejects every set of fewer than 15 files with
  the size error and lets every set of at least 15 files past the size rule;
  \<open>build_fingerprint\<close> of \<open>full_prnu_pipeline.py\<close> has the same boundary at 10 files.
  The two minima are the constants written in the two functions.
\<close>

theorem size_rule_boundaries:
  "(length fs < 15 \<longrightarrow> validate_references E fs = ([], Inl size_error))
   \<and> (15 \<le> length fs \<longrightarrow> snd (validate_references E fs) \<noteq> Inl size_error)
   \<and> (length (glob_cr2 E d) < 10 \<longrightarrow> build_fingerprint E d = ([], Inl lenient_size_error))
   \<and> (10 \<le> length (glob_cr2 E d) \<longrightarrow> snd (build_fingerprint E d) \<noteq> Inl lenient_size_error)"
  using validate_references_small validate_references_large build_fingerprint_small
    build_fingerprint_large by blast

lemma glob_few: "glob_cr2 example_env ''few'' = map (\<lambda>n. ''few/'' @ n) (take 9 cr2_names)"
  by (simp add: glob_cr2_def glob1_cr2_def has_magic_def example_env_def glob_dirname_def
      rstrip_slash_def cr2_names_def ishidden_def endswith_def os_path_join_def)

lemma glob_bad: "glob_cr2 example_env ''bad'' = map (\<lambda>n. ''bad/'' @ n) cr2_names"
  by (simp add: glob_cr2_def glob1_cr2_def has_magic_def example_env_def glob_dirname_def
      rstrip_slash_def cr2_names_def ishidden_def endswith_def os_path_join_def)

lemma glob_refs: "glob_cr2 example_env ''refs'' = map (\<lambda>n. ''refs/'' @ n) cr2_names"
  by (simp add: glob_cr2_def glob1_cr2_def has_magic_def example_env_def glob_dirname_def
      rstrip_slash_def cr2_names_def ishidden_def endswith_def os_path_join_def)

lemma length_cr2_names: "length cr2_names = 15"
  by (simp add: cr2_names_def)

theorem size_rule_boundaries_witness:
  "length (take 14 cr2_names) < 15
   \<and> validate_references example_env (take 14 cr2_names) = ([], Inl size_error)
   \<and> 15 \<le> length cr2_names
   \<and> snd (validate_references example_env cr2_names) \<noteq> Inl size_error
   \<and> length (glob_cr2 example_env ''few'') < 10
   \<and> build_fingerprint example_env ''few'' = ([], Inl lenient_size_error)
   \<and> 10 \<le> length (glob_cr2 example_env ''bad'')
   \<and> snd (build_fingerprint example_env ''bad'') \<noteq> Inl lenient_size_error"
  using size_rule_boundaries [of "take 14 cr2_names" example_env "''few''"]
    size_rule_boundaries [of cr2_names example_env "''bad''"]
  by (simp add: length_cr2_names glob_few glob_bad)

text \<open>
  The minimum is no configuration parameter: neither function takes a configuration. The
  size rule in the specification's words, configured with the minimum 12, admits a set of
  12 files, which \<open>validate_references\<close> rejects; configured with the minimum 5 it admits
  the 9 files of folder \<open>few\<close>, which \<open>build_fingerprint\<close> rejects.
\<close>

theorem size_rule_not_configurable:
  "configured_size_rule
     \<lparr>minimum_reference_count = 12, require_extension_check = True,
      log_chain_of_custody = True\<rparr> (take 12 cr2_names)
   \<and> validate_references example_env (take 12 cr2_names) = ([], Inl size_error)
   \<and> configured_size_rule
     \<lparr>minimum_reference_count = 5, require_extension_check = False,
      log_chain_of_custody = False\<rparr> (glob_cr2 example_env ''few'')
   \<and> build_fingerprint example_env ''few'' = ([], Inl lenient_size_error)"
  by (simp add: configured_size_rule_def length_cr2_names glob_few validate_references_small
      build_fingerprint_small)

section \<open>Claim C6: the extension rule\<close>

lemma check_extensions_first:
  "list_all (\<lambda>f. endswith (lower f) ''.cr2'') pre \<Longrightarrow> \<not> endswith (lower f) ''.cr2'' \<Longrightarrow>
   check_extensions (pre @ f # post) = Inl (extension_error f)"
  by (induction pre) simp_all

lemma first_mismatch_unique:
  assumes "pre @ f # post = pre' @ f' # post'"
    and "list_all P pre" and "\<not> P f" and "list_all P pre'" and "\<not> P f'"
  shows "f = f'"
proof -
  have "find (\<lambda>x. \<not> P x) (pre @ f # post) = Some f" if "list_all P pre" "\<not> P f"
    for pre f and post :: "'a list"
    using that by (induction pre) simp_all
  then have "Some f = Some f'"
    using assms by metis
  then show ?thesis by simp
qed

text \<open>
  C6 (as amended). For a set of at least 15 files in which some file name does not end in
  \<open>.cr2\<close> after lower-casing, \<open>validate_references\<close> raises the extension error that names
  the first such file, and logs nothing. For a set of any size in which every name does,
  the extension check passes and the validator raises no extension error.
\<close>

theorem extension_rule:
  "(15 \<le> length fs \<longrightarrow> (\<exists>f\<in>set fs. \<not> endswith (lower f) ''.cr2'') \<longrightarrow>
      (\<exists>pre f post. fs = pre @ f # post
         \<and> list_all (\<lambda>f. endswith (lower f) ''.cr2'') pre
         \<and> \<not> endswith (lower f) ''.cr2''
         \<and> validate_references E fs = ([], Inl (extension_error f))))
   \<and> (list_all (\<lambda>f. endswith (lower f) ''.cr2'') fs \<longrightarrow>
        check_extensions fs = Inr ()
        \<and> (\<forall>g. snd (validate_references E fs) \<noteq> Inl (extension_error g)))"
proof (intro conjI impI)
  assume l: "15 \<le> length fs" and "\<exists>f\<in>set fs. \<not> endswith (lower f) ''.cr2''"
  then obtain pre f post where fs: "fs = pre @ f # post"
    and f: "\<not> endswith (lower f) ''.cr2''"
    and "\<forall>y\<in>set pre. \<not> \<not> endswith (lower y) ''.cr2''"
    using split_list_first_prop[of fs "\<lambda>f. \<not> endswith (lower f) ''.cr2''"] by blast
  then have pre: "list_all (\<lambda>f. endswith (lower f) ''.cr2'') pre"
    by (simp add: list_all_iff)
  have "check_extensions fs = Inl (extension_error f)"
    unfolding fs using pre f by (rule check_extensions_first)
  then have "validate_references E fs = ([], Inl (extension_error f))"
    using l by (simp add: validate_references_def)
  then show "\<exists>pre f post. fs = pre @ f # post
         \<and> list_all (\<lambda>f. endswith (lower f) ''.cr2'') pre
         \<and> \<not> endswith (lower f) ''.cr2''
         \<and> validate_references E fs = ([], Inl (extension_error f))"
    using fs pre f by blast
next
  assume a: "list_all (\<lambda>f. endswith (lower f) ''.cr2'') fs"
  then show "check_extensions fs = Inr ()"
    by (rule check_extensions_ok)
  show "\<forall>g. snd (validate_references E fs) \<noteq> Inl (extension_error g)"
  proof (cases "length fs < 15")
    case True
    then show ?thesis
      using size_error_neq_extension_error by (simp add: validate_references_small)
  next
    case False
    then have "15 \<le> length fs" by simp
    then show ?thesis
      using validate_references_cases[of fs E] a
      by (auto simp: extension_error_def list_all_iff)
  qed
qed

lemma lower_mixed:
  "lower ''IMG_1.cr2'' = ''img_1.cr2''" "lower ''IMG_2.Cr2'' = ''img_2.cr2''"
  by (simp_all add: lower_def lower_char_def is_ascii_upper_def)

lemma cr2_names_ok: "list_all (\<lambda>f. endswith (lower f) ''.cr2'') cr2_names"
  by (simp add: cr2_names_def lower_def lower_char_def is_ascii_upper_def endswith_def)

lemma fs_mixed_case_ok: "list_all (\<lambda>f. endswith (lower f) ''.cr2'') fs_mixed_case"
  using cr2_names_ok
  by (auto simp: fs_mixed_case_def lower_mixed endswith_def list_all_iff dest: in_set_takeD)

lemma x_jpg_bad: "\<not> endswith (lower ''x.jpg'') ''.cr2''"
  by (simp add: lower_def lower_char_def is_ascii_upper_def endswith_def)

lemma y_png_bad: "\<not> endswith (lower ''y.png'') ''.cr2''"
  by (simp add: lower_def lower_char_def is_ascii_upper_def endswith_def)

text \<open>
  The witness has two mismatching files, \<open>x.jpg\<close> before \<open>y.png\<close>; the error names the first.
\<close>

theorem extension_rule_witness:
  "15 \<le> length fs_with_jpg
   \<and> (\<exists>f\<in>set fs_with_jpg. \<not> endswith (lower f) ''.cr2'')
   \<and> \<not> endswith (lower ''y.png'') ''.cr2'' \<and> ''y.png'' \<in> set fs_with_jpg
   \<and> validate_references example_env fs_with_jpg = ([], Inl (extension_error ''x.jpg''))
   \<and> list_all (\<lambda>f. endswith (lower f) ''.cr2'') fs_mixed_case
   \<and> check_extensions fs_mixed_case = Inr ()
   \<and> snd (validate_references example_env fs_mixed_case) \<noteq> Inl (extension_error ''IMG_2.Cr2'')"
proof -
  have l1: "15 \<le> length fs_with_jpg"
    by (simp add: fs_with_jpg_def length_cr2_names)
  have b: "\<exists>f\<in>set fs_with_jpg. \<not> endswith (lower f) ''.cr2''"
    using x_jpg_bad by (auto simp: fs_with_jpg_def)
  have y: "''y.png'' \<in> set fs_with_jpg"
    by (simp add: fs_with_jpg_def)
  have d: "fs_with_jpg = take 2 cr2_names @ ''x.jpg'' # (''y.png'' # take 11 cr2_names)"
    by (simp add: fs_with_jpg_def)
  have p: "list_all (\<lambda>f. endswith (lower f) ''.cr2'') (take 2 cr2_names)"
    using cr2_names_ok by (auto simp: list_all_iff dest: in_set_takeD)
  from extension_rule [of fs_with_jpg example_env] l1 b
  obtain pre f post where fs: "fs_with_jpg = pre @ f # post"
    and pre: "list_all (\<lambda>f. endswith (lower f) ''.cr2'') pre"
    and f: "\<not> endswith (lower f) ''.cr2''"
    and v: "validate_references example_env fs_with_jpg = ([], Inl (extension_error f))"
    by blast
  have "f = ''x.jpg''"
    using first_mismatch_unique[of pre f post "take 2 cr2_names" "''x.jpg''"
        "''y.png'' # take 11 cr2_names" "\<lambda>f. endswith (lower f) ''.cr2''"]
      fs d pre f p x_jpg_bad by simp
  then have v': "validate_references example_env fs_with_jpg
       = ([], Inl (extension_error ''x.jpg''))"
    using v by simp
  show ?thesis
    using l1 b y y_png_bad v' fs_mixed_case_ok extension_rule [of fs_mixed_case example_env]
    by blast
qed

text \<open>
  The size rule comes first: a set of one JPEG file is rejected with the size error, which
  is not an extension error.
\<close>

theorem extension_error_after_size_rule:
  "\<not> endswith (lower ''x.jpg'') ''.cr2''
   \<and> validate_references example_env [''x.jpg''] = ([], Inl size_error)
   \<and> size_error \<noteq> extension_error ''x.jpg''"
  by (simp add: x_jpg_bad validate_references_small size_error_neq_extension_error)

section \<open>Claim C9: the sets that reach the validator\<close>

text \<open>
  C9. The reference set that \<open>build_reference_fingerprint\<close> hands to the validator is the
  result of the pattern \<open>*.CR2\<close>: every member ends in \<open>.CR2\<close>, the extension check finds
  nothing, and the run never ends in the extension error.
\<close>

theorem glob_members_pass_extension_rule:
  "list_all (\<lambda>f. endswith f ''.CR2'') (glob_cr2 E ref_folder)
   \<and> check_extensions (glob_cr2 E ref_folder) = Inr ()
   \<and> (\<forall>f. snd (build_reference_fingerprint E ref_folder) \<noteq> Inl (extension_error f))"
proof -
  let ?fs = "glob_cr2 E ref_folder"
  have a: "list_all (\<lambda>f. endswith f ''.CR2'') ?fs"
    by (rule glob_cr2_endswith)
  then have l: "list_all (\<lambda>f. endswith (lower f) ''.cr2'') ?fs"
    by (simp add: list_all_iff endswith_CR2_lower)
  have c: "check_extensions ?fs = Inr ()"
    using l by (rule check_extensions_ok)
  have "snd (build_reference_fingerprint E ref_folder) \<noteq> Inl (extension_error f)" for f
  proof (cases "length ?fs < 15")
    case True
    then show ?thesis
      using size_error_neq_extension_error[of f]
      by (simp add: build_reference_fingerprint_def validate_references_small)
  next
    case False
    obtain t r where lh: "log_hashes E ?fs = (t, r)" by (cases "log_hashes E ?fs")
    show ?thesis
    proof (cases r)
      case (Inl e)
      then obtain m where "e = ExternalError m"
        using log_hashes_error[of E ?fs e] lh by auto
      then show ?thesis
        using False c lh Inl
        by (simp add: build_reference_fingerprint_def validate_references_def
            extension_error_def)
    next
      case (Inr u)
      then show ?thesis
        using False c lh
        by (simp add: build_reference_fingerprint_def validate_references_def
            extension_error_def make_fingerprint_not_ValueError split: prod.splits)
    qed
  qed
  then show ?thesis using a c by blast
qed

section \<open>Claim C7: hash records come before any extraction\<close>

lemma extract_all_Imreads: "filter is_Imread (fst (extract_all E fs)) = map Imread fs"
  by (induction fs) (auto split: prod.splits sum.splits)

lemma hash_lines_no_Imread:
  "list_all (\<lambda>e. \<not> is_Imread e) (map2 (\<lambda>f h. Print (hash_line f h)) fs hs)"
  by (auto simp: list_all_iff)

lemma validate_references_ok:
  assumes "15 \<le> length fs"
    and "list_all (\<lambda>f. endswith (lower f) ''.cr2'') fs"
    and "map (read_sha256 E) fs = map Inr hs"
  shows "validate_references E fs
         = (Print ''Reference File Validation:'' # map2 (\<lambda>f h. Print (hash_line f h)) fs hs,
            Inr True)"
  using assms by (simp add: validate_references_def check_extensions_ok log_hashes_ok)

lemma log_hashes_Inr:
  "log_hashes E fs = (t, Inr u) \<Longrightarrow>
   \<exists>hs. map (read_sha256 E) fs = map Inr hs \<and> t = map2 (\<lambda>f h. Print (hash_line f h)) fs hs"
proof (induction fs arbitrary: t)
  case Nil
  then show ?case by simp
next
  case (Cons f fs)
  from Cons.prems obtain h t' where h: "read_sha256 E f = Inr h"
    and l: "log_hashes E fs = (t', Inr u)" and t: "t = Print (hash_line f h) # t'"
    by (auto split: sum.splits prod.splits)
  from Cons.IH[OF l] obtain hs where "map (read_sha256 E) fs = map Inr hs"
    and "t' = map2 (\<lambda>f h. Print (hash_line f h)) fs hs" by blast
  then have "map (read_sha256 E) (f # fs) = map Inr (h # hs)
      \<and> t = map2 (\<lambda>f h. Print (hash_line f h)) (f # fs) (h # hs)"
    using h t by simp
  then show ?case by blast
qed

lemma log_hashes_no_Imread: "list_all (\<lambda>e. \<not> is_Imread e) (fst (log_hashes E fs))"
  by (induction fs) (auto split: sum.splits prod.splits)

lemma validate_references_no_Imread:
  "list_all (\<lambda>e. \<not> is_Imread e) (fst (validate_references E fs))"
  using log_hashes_no_Imread[of E fs]
  by (auto simp: validate_references_def split: sum.splits prod.splits)

lemma validate_references_Inr:
  assumes "validate_references E fs = (t, Inr ok)"
  shows "\<exists>hs. map (read_sha256 E) fs = map Inr hs
          \<and> t = Print ''Reference File Validation:'' # map2 (\<lambda>f h. Print (hash_line f h)) fs hs"
proof -
  obtain t' r where l: "log_hashes E fs = (t', r)" by (cases "log_hashes E fs")
  from assms l obtain u where "r = Inr u" and "t = Print ''Reference File Validation:'' # t'"
    by (auto simp: validate_references_def split: if_splits sum.splits)
  then show ?thesis using log_hashes_Inr[of E fs t' u] l by auto
qed

lemma prefix_before_event:
  assumes "xs @ ys = pre @ e # post" and "e \<notin> set xs"
  shows "take (length xs) pre = xs"
proof -
  from assms(1) obtain us where
    "(xs = pre @ us \<and> us @ ys = e # post) \<or> (xs @ us = pre \<and> ys = us @ e # post)"
    by (auto simp: append_eq_append_conv2)
  then show ?thesis
  proof
    assume a: "xs = pre @ us \<and> us @ ys = e # post"
    then have "us = []" using assms(2) by (cases us) auto
    then show ?thesis using a by simp
  next
    assume "xs @ us = pre \<and> ys = us @ e # post"
    then show ?thesis by auto
  qed
qed

lemma build_reference_fingerprint_trace:
  "fst (build_reference_fingerprint E ref_folder)
   = (case validate_references E (glob_cr2 E ref_folder) of
        (t1, Inl e) \<Rightarrow> t1
      | (t1, Inr ok) \<Rightarrow> t1 @ fst (extract_all E (glob_cr2 E ref_folder)))"
  by (simp add: build_reference_fingerprint_def split: prod.splits sum.splits)

lemma records_precede_extraction:
  assumes "fst (build_reference_fingerprint E ref_folder) = pre @ Imread f # post"
    and "glob_cr2 E ref_folder = fs"
  shows "\<exists>hs. map (read_sha256 E) fs = map Inr hs
          \<and> take (Suc (length fs)) pre
              = Print ''Reference File Validation:'' # map2 (\<lambda>f h. Print (hash_line f h)) fs hs"
proof -
  obtain t1 r where v: "validate_references E fs = (t1, r)"
    by (cases "validate_references E fs")
  have n: "Imread f \<notin> set t1"
    using validate_references_no_Imread[of E fs] v by (auto simp: list_all_iff)
  show ?thesis
  proof (cases r)
    case (Inl e)
    then have "fst (build_reference_fingerprint E ref_folder) = t1"
      using v assms(2) by (simp add: build_reference_fingerprint_trace)
    then show ?thesis using n assms(1) by auto
  next
    case (Inr ok)
    then obtain hs where hs: "map (read_sha256 E) fs = map Inr hs"
      and t1: "t1 = Print ''Reference File Validation:'' # map2 (\<lambda>f h. Print (hash_line f h)) fs hs"
      using validate_references_Inr[of E fs t1 ok] v by auto
    have "length hs = length fs"
      using arg_cong[OF hs, of length] by simp
    then have len: "length t1 = Suc (length fs)" by (simp add: t1)
    have "t1 @ fst (extract_all E fs) = pre @ Imread f # post"
      using assms v Inr by (simp add: build_reference_fingerprint_trace)
    then have "take (length t1) pre = t1"
      using n by (rule prefix_before_event)
    then show ?thesis using hs t1 len by auto
  qed
qed

lemma log_hashes_abort:
  "k < length fs \<Longrightarrow> map (read_sha256 E) (take k fs) = map Inr hs \<Longrightarrow>
   read_sha256 E (fs ! k) = Inl m \<Longrightarrow>
   log_hashes E fs
     = (map2 (\<lambda>f h. Print (hash_line f h)) (take k fs) hs, Inl (ExternalError m))"
proof (induction fs arbitrary: k hs)
  case Nil
  then show ?case by simp
next
  case (Cons f fs)
  show ?case
  proof (cases k)
    case 0
    then show ?thesis using Cons.prems by simp
  next
    case (Suc k')
    then obtain h hs' where hs: "hs = h # hs'" and h: "read_sha256 E f = Inr h"
      and r: "map (read_sha256 E) (take k' fs) = map Inr hs'"
      using Cons.prems(2) by (cases hs) auto
    have "log_hashes E fs
        = (map2 (\<lambda>f h. Print (hash_line f h)) (take k' fs) hs', Inl (ExternalError m))"
      using Cons.prems(1,3) Suc r by (intro Cons.IH) simp_all
    then show ?thesis by (simp add: Suc hs h)
  qed
qed

lemma build_reference_fingerprint_abort:
  assumes "glob_cr2 E ref_folder = fs"
    and "15 \<le> length fs"
    and "list_all (\<lambda>f. endswith (lower f) ''.cr2'') fs"
    and "k < length fs"
    and "map (read_sha256 E) (take k fs) = map Inr hs"
    and "read_sha256 E (fs ! k) = Inl m"
  shows "build_reference_fingerprint E ref_folder
         = (Print ''Reference File Validation:''
              # map2 (\<lambda>f h. Print (hash_line f h)) (take k fs) hs,
            Inl (ExternalError m))"
  using assms(2) log_hashes_abort[OF assms(4,5,6)]
  by (simp add: build_reference_fingerprint_def assms(1) validate_references_def
      check_extensions_ok[OF assms(3)])

text \<open>
  C7 (as amended). Let the reference set found in the folder pass the size and the
  extension rule. When every member can be read, the validator prints the header and then
  one hash record (basename and digest) per member, in order, and the trace of
  \<open>build_reference_fingerprint\<close> is these lines followed by the trace of the extraction loop,
  which calls the decoder once per member. In every case, whatever precedes a call of the
  decoder in the trace starts with the header and the hash records of all members. When a
  member cannot be read, the run ends at it with the error of the read: the records of
  the members before it have been printed and the decoder is never called.
\<close>

theorem hash_records_before_extraction:
  assumes "glob_cr2 E ref_folder = fs"
    and "15 \<le> length fs"
    and "list_all (\<lambda>f. endswith (lower f) ''.cr2'') fs"
  shows "(map (read_sha256 E) fs = map Inr hs \<longrightarrow>
            validate_references E fs
              = (Print ''Reference File Validation:''
                   # map2 (\<lambda>f h. Print (hash_line f h)) fs hs, Inr True)
            \<and> fst (build_reference_fingerprint E ref_folder)
              = (Print ''Reference File Validation:''
                   # map2 (\<lambda>f h. Print (hash_line f h)) fs hs)
                @ fst (extract_all E fs)
            \<and> filter is_Imread (fst (extract_all E fs)) = map Imread fs)
       \<and> (\<forall>pre f post.
            fst (build_reference_fingerprint E ref_folder) = pre @ Imread f # post \<longrightarrow>
            (\<exists>hs'. map (read_sha256 E) fs = map Inr hs'
               \<and> take (Suc (length fs)) pre
                   = Print ''Reference File Validation:''
                       # map2 (\<lambda>f h. Print (hash_line f h)) fs hs'))
       \<and> (\<forall>k hs' m.
            k < length fs \<longrightarrow> map (read_sha256 E) (take k fs) = map Inr hs' \<longrightarrow>
            read_sha256 E (fs ! k) = Inl m \<longrightarrow>
            build_reference_fingerprint E ref_folder
              = (Print ''Reference File Validation:''
                   # map2 (\<lambda>f h. Print (hash_line f h)) (take k fs) hs',
                 Inl (ExternalError m)))"
proof (intro conjI impI allI)
  assume r: "map (read_sha256 E) fs = map Inr hs"
  show v: "validate_references E fs
              = (Print ''Reference File Validation:''
                   # map2 (\<lambda>f h. Print (hash_line f h)) fs hs, Inr True)"
    using assms(2,3) r by (rule validate_references_ok)
  show "fst (build_reference_fingerprint E ref_folder)
              = (Print ''Reference File Validation:''
                   # map2 (\<lambda>f h. Print (hash_line f h)) fs hs)
                @ fst (extract_all E fs)"
    by (simp add: build_reference_fingerprint_trace assms(1) v)
  show "filter is_Imread (fst (extract_all E fs)) = map Imread fs"
    by (rule extract_all_Imreads)
next
  fix pre f post
  assume "fst (build_reference_fingerprint E ref_folder) = pre @ Imread f # post"
  then show "\<exists>hs'. map (read_sha256 E) fs = map Inr hs'
               \<and> take (Suc (length fs)) pre
                   = Print ''Reference File Validation:''
                       # map2 (\<lambda>f h. Print (hash_line f h)) fs hs'"
    using assms(1) by (rule records_precede_extraction)
next
  fix k hs' m
  assume "k < length fs" and "map (read_sha256 E) (take k fs) = map Inr hs'"
    and "read_sha256 E (fs ! k) = Inl m"
  with assms show "build_reference_fingerprint E ref_folder
              = (Print ''Reference File Validation:''
                   # map2 (\<lambda>f h. Print (hash_line f h)) (take k fs) hs',
                 Inl (ExternalError m))"
    by (rule build_reference_fingerprint_abort)
qed

lemma length_extract_all_trace: "length (fst (extract_all E fs)) = 2 * length fs"
  by (induction fs) (auto split: prod.splits sum.splits)

lemma extract_all_first: "fst (extract_all E (f # fs)) ! 0 = Imread f"
  by (simp split: prod.splits sum.splits)

lemma refs_files_ok: "list_all (\<lambda>f. endswith (lower f) ''.cr2'') refs_files"
  using glob_cr2_endswith[of example_env "''refs''"]
  by (simp add: glob_refs refs_files_def list_all_iff endswith_CR2_lower)

lemma refs_hashes: "map (read_sha256 example_env) refs_files = map Inr refs_digests"
  by (simp add: refs_files_def refs_digests_def cr2_names_def example_env_def basename_def)

lemma length_refs_files: "length refs_files = 15"
  by (simp add: refs_files_def length_cr2_names)

lemma refs_lines:
  "take 2 (map2 (\<lambda>f h. Print (hash_line f h)) refs_files refs_digests)
   = [Print ''  a.CR2 -> SHA256: digest-of-a.CR2'',
      Print ''  b.CR2 -> SHA256: digest-of-b.CR2'']"
  by (simp add: refs_files_def refs_digests_def cr2_names_def hash_line_def basename_def)

lemma glob1_cr2_unreadable_env: "glob1_cr2 unreadable_env = glob1_cr2 example_env"
  by (intro ext) (simp add: glob1_cr2_def unreadable_env_def)

lemma glob_cr2_unreadable_env: "glob_cr2 unreadable_env d = glob_cr2 example_env d"
proof -
  have "glob_dirs unreadable_env = glob_dirs example_env"
    by (simp add: unreadable_env_def)
  then show ?thesis
    by (simp add: glob_cr2_def Let_def glob1_cr2_unreadable_env)
qed

lemma unreadable_reads:
  "map (read_sha256 unreadable_env) (take 2 refs_files) = map Inr (take 2 refs_digests)"
  "read_sha256 unreadable_env (refs_files ! 2) = Inl ''Permission denied''"
  by (simp_all add: unreadable_env_def refs_files_def refs_digests_def cr2_names_def
      example_env_def basename_def)

theorem hash_records_before_extraction_witness:
  "glob_cr2 example_env ''refs'' = refs_files
   \<and> 15 \<le> length refs_files
   \<and> list_all (\<lambda>f. endswith (lower f) ''.cr2'') refs_files
   \<and> map (read_sha256 example_env) refs_files = map Inr refs_digests
   \<and> take 3 (fst (build_reference_fingerprint example_env ''refs''))
       = [Print ''Reference File Validation:'',
          Print ''  a.CR2 -> SHA256: digest-of-a.CR2'',
          Print ''  b.CR2 -> SHA256: digest-of-b.CR2'']
   \<and> fst (build_reference_fingerprint example_env ''refs'')
       = take 16 (fst (build_reference_fingerprint example_env ''refs''))
         @ Imread ''refs/a.CR2''
         # drop 17 (fst (build_reference_fingerprint example_env ''refs''))
   \<and> filter is_Imread (fst (build_reference_fingerprint example_env ''refs''))
       = map Imread refs_files
   \<and> glob_cr2 unreadable_env ''refs'' = refs_files
   \<and> map (read_sha256 unreadable_env) (take 2 refs_files) = map Inr (take 2 refs_digests)
   \<and> read_sha256 unreadable_env (refs_files ! 2) = Inl ''Permission denied''
   \<and> build_reference_fingerprint unreadable_env ''refs''
       = ([Print ''Reference File Validation:'',
           Print ''  a.CR2 -> SHA256: digest-of-a.CR2'',
           Print ''  b.CR2 -> SHA256: digest-of-b.CR2''],
          Inl (ExternalError ''Permission denied''))"
proof -
  have l: "15 \<le> length refs_files"
    by (simp add: length_refs_files)
  have g: "glob_cr2 example_env ''refs'' = refs_files"
    by (simp add: glob_refs refs_files_def)
  have g': "glob_cr2 unreadable_env ''refs'' = refs_files"
    by (simp add: glob_cr2_unreadable_env g)
  note t = hash_records_before_extraction [OF g l refs_files_ok, of refs_digests]
  note u = hash_records_before_extraction [OF g' l refs_files_ok]
  have tr: "fst (build_reference_fingerprint example_env ''refs'')
      = (Print ''Reference File Validation:''
                   # map2 (\<lambda>f h. Print (hash_line f h)) refs_files refs_digests)
                @ fst (extract_all example_env refs_files)"
    using t refs_hashes by blast
  have fe: "filter is_Imread (fst (extract_all example_env refs_files)) = map Imread refs_files"
    using t refs_hashes by blast
  have f: "filter is_Imread (fst (build_reference_fingerprint example_env ''refs''))
       = map Imread refs_files"
    unfolding tr using fe by (auto simp: filter_empty_conv simp del: extract_all.simps)
  have ld: "length refs_digests = 15"
    by (simp add: refs_digests_def length_cr2_names)
  have "take 3 (fst (build_reference_fingerprint example_env ''refs''))
       = Print ''Reference File Validation:''
           # take 2 (map2 (\<lambda>f h. Print (hash_line f h)) refs_files refs_digests)"
    unfolding tr by (simp add: length_refs_files ld numeral_3_eq_3 numeral_2_eq_2)
  then have t3: "take 3 (fst (build_reference_fingerprint example_env ''refs''))
       = [Print ''Reference File Validation:'',
          Print ''  a.CR2 -> SHA256: digest-of-a.CR2'',
          Print ''  b.CR2 -> SHA256: digest-of-b.CR2'']"
    by (simp only: refs_lines)
  have "fst (build_reference_fingerprint example_env ''refs'') ! 16
        = fst (extract_all example_env refs_files) ! 0"
    unfolding tr by (simp add: nth_append length_refs_files ld)
  also have "\<dots> = Imread ''refs/a.CR2''"
    using extract_all_first[of example_env "''refs/a.CR2''" "tl refs_files"]
    by (simp add: refs_files_def cr2_names_def del: extract_all.simps)
  finally have i16: "fst (build_reference_fingerprint example_env ''refs'') ! 16
       = Imread ''refs/a.CR2''" .
  have "16 < length (fst (build_reference_fingerprint example_env ''refs''))"
    unfolding tr by (simp add: length_extract_all_trace length_refs_files ld)
  then have sp: "fst (build_reference_fingerprint example_env ''refs'')
       = take 16 (fst (build_reference_fingerprint example_env ''refs''))
         @ Imread ''refs/a.CR2''
         # drop 17 (fst (build_reference_fingerprint example_env ''refs''))"
    using id_take_nth_drop[of 16 "fst (build_reference_fingerprint example_env ''refs'')"] i16
    by simp
  have "build_reference_fingerprint unreadable_env ''refs''
       = (Print ''Reference File Validation:''
            # map2 (\<lambda>f h. Print (hash_line f h)) (take 2 refs_files) (take 2 refs_digests),
          Inl (ExternalError ''Permission denied''))"
    using u unreadable_reads by (simp add: length_refs_files)
  also have "map2 (\<lambda>f h. Print (hash_line f h)) (take 2 refs_files) (take 2 refs_digests)
       = take 2 (map2 (\<lambda>f h. Print (hash_line f h)) refs_files refs_digests)"
    by (simp add: take_map take_zip)
  finally have ab: "build_reference_fingerprint unreadable_env ''refs''
       = ([Print ''Reference File Validation:'',
           Print ''  a.CR2 -> SHA256: digest-of-a.CR2'',
           Print ''  b.CR2 -> SHA256: digest-of-b.CR2''],
          Inl (ExternalError ''Permission denied''))"
    by (simp only: refs_lines)
  show ?thesis
    using l refs_files_ok refs_hashes g f t3 sp g' unreadable_reads ab by blast
qed

text \<open>
  With a member that cannot be read, not every member gets a hash record: the fifteen
  files of folder \<open>refs\<close> pass the size and the extension rule, the third one is
  unreadable, and the run prints the records of the first two only.
\<close>

theorem unreadable_member_has_no_record:
  "15 \<le> length (glob_cr2 unreadable_env ''refs'')
   \<and> check_extensions (glob_cr2 unreadable_env ''refs'') = Inr ()
   \<and> length (fst (build_reference_fingerprint unreadable_env ''refs'')) = 3
   \<and> build_reference_fingerprint unreadable_env ''refs''
       = ([Print ''Reference File Validation:'',
           Print ''  a.CR2 -> SHA256: digest-of-a.CR2'',
           Print ''  b.CR2 -> SHA256: digest-of-b.CR2''],
          Inl (ExternalError ''Permission denied''))"
proof -
  have g: "glob_cr2 unreadable_env ''refs'' = refs_files"
    by (simp add: glob_cr2_unreadable_env glob_refs refs_files_def)
  have l: "15 \<le> length refs_files" and k: "2 < length refs_files"
    by (simp_all add: length_refs_files)
  have c: "check_extensions refs_files = Inr ()"
    using refs_files_ok by (rule check_extensions_ok)
  have "build_reference_fingerprint unreadable_env ''refs''
       = (Print ''Reference File Validation:''
            # map2 (\<lambda>f h. Print (hash_line f h)) (take 2 refs_files) (take 2 refs_digests),
          Inl (ExternalError ''Permission denied''))"
    using g l refs_files_ok k unreadable_reads by (rule build_reference_fingerprint_abort)
  also have "map2 (\<lambda>f h. Print (hash_line f h)) (take 2 refs_files) (take 2 refs_digests)
       = take 2 (map2 (\<lambda>f h. Print (hash_line f h)) refs_files refs_digests)"
    by (simp add: take_map take_zip)
  finally have "build_reference_fingerprint unreadable_env ''refs''
       = ([Print ''Reference File Validation:'',
           Print ''  a.CR2 -> SHA256: digest-of-a.CR2'',
           Print ''  b.CR2 -> SHA256: digest-of-b.CR2''],
          Inl (ExternalError ''Permission denied''))"
    by (simp only: refs_lines)
  then show ?thesis
    using g l c by simp
qed

section \<open>Claim C4: the fingerprint of the surviving residuals\<close>



lemma make_fingerprint_Nil: "make_fingerprint [] = Inl MinEmptyError"
  by (simp add: make_fingerprint_def align_shapes_def)


lemma build_reference_fingerprint_result:
  assumes "snd (validate_references E (glob_cr2 E ref_folder)) = Inr ok"
  shows "snd (build_reference_fingerprint E ref_folder)
         = make_fingerprint (snd (extract_all E (glob_cr2 E ref_folder)))"
  using assms
  by (cases "validate_references E (glob_cr2 E ref_folder)")
    (auto simp: build_reference_fingerprint_def Let_def split: prod.splits sum.splits)

lemma build_fingerprint_result:
  assumes "10 \<le> length (glob_cr2 E ref_folder)"
  shows "snd (build_fingerprint E ref_folder)
         = make_fingerprint (snd (extract_all E (glob_cr2 E ref_folder)))"
  using assms
  by (cases "extract_all E (glob_cr2 E ref_folder)") (simp add: build_fingerprint_def)


lemma extract_all_shapes:
  "map (\<lambda>a. (rows a, cols a)) (snd (extract_all E fs))
   = concat (map (\<lambda>f. case imread_gray E f of Inl m \<Rightarrow> [] | Inr g \<Rightarrow> [(rows g, cols g)]) fs)"
proof (induction fs)
  case Nil
  then show ?case by simp
next
  case (Cons f fs)
  show ?case
  proof (cases "imread_gray E f")
    case (Inl m)
    then show ?thesis
      using Cons by (auto simp: extract_residual_Inl split: prod.splits)
  next
    case (Inr g)
    then obtain res where "extract_residual E f = Inr res" "rows res = rows g" "cols res = cols g"
      using extract_residual_Inr by blast
    then show ?thesis
      using Cons Inr by (auto split: prod.splits)
  qed
qed

lemma bad_shapes:
  "map (\<lambda>a. (rows a, cols a))
     (snd (extract_all example_env (map (\<lambda>n. ''bad/'' @ n) cr2_names))) = []"
  unfolding extract_all_shapes
  by (simp add: cr2_names_def example_env_def)







section \<open>Claim C2: no residual survives\<close>

lemma all_fail_MinEmptyError:
  assumes "snd (validate_references E (glob_cr2 E ref_folder)) = Inr ok"
    and "list_all (\<lambda>f. isl (imread_gray E f)) (glob_cr2 E ref_folder)"
  shows "snd (build_reference_fingerprint E ref_folder) = Inl MinEmptyError"
proof -
  have "concat (map (\<lambda>f. case imread_gray E f of Inl m \<Rightarrow> [] | Inr g \<Rightarrow> [(rows g, cols g)])
          (glob_cr2 E ref_folder)) = []"
    using assms(2) by (auto simp: list_all_iff isl_def)
  then have "map (\<lambda>a. (rows a, cols a)) (snd (extract_all E (glob_cr2 E ref_folder))) = []"
    by (simp only: extract_all_shapes)
  then have "snd (extract_all E (glob_cr2 E ref_folder)) = []"
    by simp
  then show ?thesis
    using build_reference_fingerprint_result[OF assms(1)] by (simp add: make_fingerprint_Nil)
qed

text \<open>
  C2. In folder \<open>bad\<close> fifteen \<open>.CR2\<close> files pass validation and none decodes. Both
  builders end in the error that \<open>min\<close> raises on the empty sequence; no check of the
  surviving residuals precedes it. The lemma before shows the same for every validated
  set whose members all fail to decode.
\<close>

theorem all_references_fail_min_error:
  "snd (build_reference_fingerprint example_env ''bad'') = Inl MinEmptyError
   \<and> snd (build_fingerprint example_env ''bad'') = Inl MinEmptyError"
proof -
  let ?fs = "map (\<lambda>n. ''bad/'' @ n) cr2_names"
  have ok: "list_all (\<lambda>f. endswith (lower f) ''.cr2'') ?fs"
    using glob_cr2_endswith[of example_env "''bad''"]
    by (simp add: glob_bad list_all_iff endswith_CR2_lower)
  have h: "map (read_sha256 example_env) ?fs
      = map Inr (map (\<lambda>f. ''digest-of-'' @ basename f) ?fs)"
    by (simp add: example_env_def)
  have v: "snd (validate_references example_env ?fs) = Inr True"
    using validate_references_ok[OF _ ok h] by (simp add: length_cr2_names)
  have e: "snd (extract_all example_env ?fs) = []"
    using bad_shapes by simp
  have "snd (build_reference_fingerprint example_env ''bad'') = Inl MinEmptyError"
    using build_reference_fingerprint_result[of example_env "''bad''" True] v e
    by (simp add: glob_bad make_fingerprint_Nil)
  moreover have "snd (build_fingerprint example_env ''bad'') = Inl MinEmptyError"
    using build_fingerprint_result[of example_env "''bad''"] e
    by (simp add: glob_bad length_cr2_names make_fingerprint_Nil)
  ultimately show ?thesis by simp
qed

end
